theory Spec2Isabelle
  imports Main "HOL-Library.List_Lexorder" "HOL-Library.Multiset"
begin

section \<open>Data model of \<open>quality_control.py\<close>\<close>

text \<open>
  A Python \<open>str\<close> is the list of its code points, so that a lone surrogate, which
  Python can hold and UTF-8 cannot encode, is a value of the type. SQLite stores text as
  UTF-8; encoding keeps the equality and the order of encodable text (bytewise comparison
  of UTF-8 is comparison of the code point lists, a proper prefix being smaller), so a
  stored text is represented by the \<open>str\<close> it was bound from and SQLite's default
  BINARY collation by the order on lists. \<open>lit\<close> is the text of a literal.
\<close>

type_synonym str = "nat list"

definition lit :: "string \<Rightarrow> str" where
  "lit cs = map of_char cs"

text \<open>The dataclass \<open>ChecklistItem\<close> (the argument of \<open>add_checklist_item\<close>).\<close>

record ChecklistItem =
  item_id :: "int option"
  item_title :: str
  item_category :: str
  item_severity :: str
  item_status :: str
  item_notes :: str
  item_created_at :: str
  item_updated_at :: str

text \<open>The dataclass \<open>Defect\<close> (the argument of \<open>add_defect\<close>).\<close>

record Defect =
  defect_id :: "int option"
  defect_title :: str
  defect_description :: str
  defect_severity :: str
  defect_component :: str
  defect_status :: str
  defect_assignee :: str
  defect_created_at :: str
  defect_resolved_at :: "str option"

text \<open>A row of table \<open>checklist_items\<close>; the fields are the columns, prefixed \<open>c_\<close>.\<close>

record checklist_row =
  c_id :: int
  c_title :: str
  c_category :: str
  c_severity :: str
  c_status :: str
  c_notes :: str
  c_created_at :: str
  c_updated_at :: str

text \<open>A row of table \<open>defects\<close>; the fields are the columns, prefixed \<open>d_\<close>.\<close>

record defect_row =
  d_id :: int
  d_title :: str
  d_description :: str
  d_severity :: str
  d_component :: str
  d_status :: str
  d_assignee :: str
  d_created_at :: str
  d_resolved_at :: "str option"

text \<open>
  The database file: each table is the list of its rows in insertion order, together
  with the counter that \<open>AUTOINCREMENT\<close> keeps for it in \<open>sqlite_sequence\<close>.
\<close>

record db =
  checklist_items :: "checklist_row list"
  checklist_seq :: int
  defects :: "defect_row list"
  defects_seq :: int

text \<open>\<open>_init_db\<close> on a file that does not exist yet: two empty tables.\<close>

definition new_db :: db where
  "new_db = \<lparr>checklist_items = [], checklist_seq = 0, defects = [], defects_seq = 0\<rparr>"

section \<open>Binding the parameters of a statement\<close>

text \<open>
  The exceptions that the statements of the store raise by themselves. While the
  parameters are bound, in their order: \<open>UnicodeEncodeError\<close> for a \<open>str\<close> that UTF-8
  cannot encode (one with a surrogate code point), \<open>sqlite3.DataError\<close> (string or blob
  too big) for a \<open>str\<close> whose UTF-8 encoding is longer than 1,000,000,000 bytes, and
  \<open>OverflowError\<close> for an \<open>int\<close> that does not fit SQLite's 64-bit INTEGER. While the
  statement runs: \<open>sqlite3.OperationalError\<close> (database or disk is full) when
  \<open>AUTOINCREMENT\<close> has used the largest rowid. Other faults of the storage engine while
  a statement runs are the specification's storage faults and are not part of the model.
\<close>

datatype error = UnicodeEncodeError | DataError | OverflowError | OperationalError

definition max_rowid :: int where
  "max_rowid = 9223372036854775807"

definition in_int64 :: "int \<Rightarrow> bool" where
  "in_int64 i = (- 9223372036854775808 \<le> i \<and> i \<le> max_rowid)"

definition scalar_value :: "nat \<Rightarrow> bool" where
  "scalar_value c = (c < 55296 \<or> (57343 < c \<and> c \<le> 1114111))"

definition encodable :: "str \<Rightarrow> bool" where
  "encodable t = list_all scalar_value t"

definition utf8_len :: "nat \<Rightarrow> nat" where
  "utf8_len c = (if c < 128 then 1 else if c < 2048 then 2 else if c < 65536 then 3 else 4)"

definition utf8_length :: "str \<Rightarrow> nat" where
  "utf8_length t = sum_list (map utf8_len t)"

definition max_length :: nat where
  "max_length = 1000000000"

datatype param = PText str | PInt int | PNone

fun bind_param :: "param \<Rightarrow> error option" where
  "bind_param (PText t) =
     (if \<not> encodable t then Some UnicodeEncodeError
      else if utf8_length t > max_length then Some DataError
      else None)"
| "bind_param (PInt i) = (if in_int64 i then None else Some OverflowError)"
| "bind_param PNone = None"

fun bind_parameters :: "param list \<Rightarrow> error option" where
  "bind_parameters [] = None"
| "bind_parameters (p # ps) =
     (case bind_param p of Some e \<Rightarrow> Some e | None \<Rightarrow> bind_parameters ps)"

text \<open>The texts that bind, and the items and defects all of whose fields bind.\<close>

definition bindable :: "str \<Rightarrow> bool" where
  "bindable t = (encodable t \<and> utf8_length t \<le> max_length)"

definition bindable_item :: "ChecklistItem \<Rightarrow> bool" where
  "bindable_item item =
     (bindable (item_title item) \<and> bindable (item_category item) \<and>
      bindable (item_severity item) \<and> bindable (item_status item) \<and>
      bindable (item_notes item) \<and> bindable (item_created_at item) \<and>
      bindable (item_updated_at item))"

definition bindable_defect :: "Defect \<Rightarrow> bool" where
  "bindable_defect defect =
     (bindable (defect_title defect) \<and> bindable (defect_description defect) \<and>
      bindable (defect_severity defect) \<and> bindable (defect_component defect) \<and>
      bindable (defect_status defect) \<and> bindable (defect_assignee defect) \<and>
      bindable (defect_created_at defect) \<and>
      (case defect_resolved_at defect of None \<Rightarrow> True | Some t \<Rightarrow> bindable t))"

section \<open>SQL building blocks\<close>

text \<open>
  \<open>AUTOINCREMENT\<close>: the new rowid is one more than the largest rowid the table has
  ever held, that is the larger of the \<open>sqlite_sequence\<close> counter and the largest rowid
  present (0 for an empty table); when that is already the largest rowid the insert
  fails.
\<close>

definition largest_rowid :: "int \<Rightarrow> int list \<Rightarrow> int" where
  "largest_rowid seq ids = max seq (case ids of [] \<Rightarrow> 0 | i # rest \<Rightarrow> foldr max rest i)"

definition next_rowid :: "int \<Rightarrow> int list \<Rightarrow> error + int" where
  "next_rowid seq ids =
     (if largest_rowid seq ids \<ge> max_rowid then Inl OperationalError
      else Inr (largest_rowid seq ids + 1))"

text \<open>
  \<open>ORDER BY key DESC\<close>: a sort on the key, largest first. Rows with equal keys stay
  in table order (the sort is stable), which is what SQLite's sorter does although SQL
  does not promise it; only the comparison of a filtered listing with the unfiltered one
  depends on it.
\<close>

definition order_by_desc :: "('a \<Rightarrow> 'k::linorder) \<Rightarrow> 'a list \<Rightarrow> 'a list" where
  "order_by_desc f xs = rev (sort_key f (rev xs))"

text \<open>
  \<open>SELECT k, COUNT(*) ... GROUP BY k\<close> over the list of the \<open>k\<close> values of the
  selected rows: one result row per distinct value, with its number of occurrences.
\<close>

definition group_count :: "str list \<Rightarrow> (str \<times> int) list" where
  "group_count ks = map (\<lambda>k. (k, int (count_list ks k))) (sort (remdups ks))"

section \<open>The operations of \<open>QualityControlDB\<close>\<close>

text \<open>
  An insert binds the fields of its argument in the order of the statement, then takes
  the next rowid.
\<close>

definition add_checklist_item :: "db \<Rightarrow> ChecklistItem \<Rightarrow> error + (int \<times> db)" where
  "add_checklist_item s item =
     (case bind_parameters
             [PText (item_title item), PText (item_category item), PText (item_severity item),
              PText (item_status item), PText (item_notes item), PText (item_created_at item),
              PText (item_updated_at item)] of
        Some e \<Rightarrow> Inl e
      | None \<Rightarrow>
         (case next_rowid (checklist_seq s) (map c_id (checklist_items s)) of
            Inl e \<Rightarrow> Inl e
          | Inr rid \<Rightarrow>
              Inr (rid, s\<lparr>checklist_items := checklist_items s @
                     [\<lparr>c_id = rid, c_title = item_title item, c_category = item_category item,
                       c_severity = item_severity item, c_status = item_status item,
                       c_notes = item_notes item, c_created_at = item_created_at item,
                       c_updated_at = item_updated_at item\<rparr>],
                     checklist_seq := rid\<rparr>)))"

definition add_defect :: "db \<Rightarrow> Defect \<Rightarrow> error + (int \<times> db)" where
  "add_defect s defect =
     (case bind_parameters
             [PText (defect_title defect), PText (defect_description defect),
              PText (defect_severity defect), PText (defect_component defect),
              PText (defect_status defect), PText (defect_assignee defect),
              PText (defect_created_at defect),
              (case defect_resolved_at defect of None \<Rightarrow> PNone | Some t \<Rightarrow> PText t)] of
        Some e \<Rightarrow> Inl e
      | None \<Rightarrow>
         (case next_rowid (defects_seq s) (map d_id (defects s)) of
            Inl e \<Rightarrow> Inl e
          | Inr rid \<Rightarrow>
              Inr (rid, s\<lparr>defects := defects s @
                     [\<lparr>d_id = rid, d_title = defect_title defect,
                       d_description = defect_description defect,
                       d_severity = defect_severity defect,
                       d_component = defect_component defect, d_status = defect_status defect,
                       d_assignee = defect_assignee defect,
                       d_created_at = defect_created_at defect,
                       d_resolved_at = defect_resolved_at defect\<rparr>],
                     defects_seq := rid\<rparr>)))"

text \<open>
  \<open>datetime.now().isoformat()\<close> is an input of the operation that reads it: the
  parameter \<open>now\<close>, a text of at most 26 ASCII characters, which always binds and is
  therefore not among the checked parameters. \<open>UPDATE ... WHERE id=?\<close> rewrites every row
  whose id matches; \<open>changes()\<close> is the number of rows the statement matched.
\<close>

definition update_checklist_status ::
  "db \<Rightarrow> string \<Rightarrow> int \<Rightarrow> str \<Rightarrow> str \<Rightarrow> error + (bool \<times> db)" where
  "update_checklist_status s now iid status notes =
     (case bind_parameters [PText status, PText notes, PInt iid] of
        Some e \<Rightarrow> Inl e
      | None \<Rightarrow>
          Inr (length (filter (\<lambda>r. c_id r = iid) (checklist_items s)) > 0,
               s\<lparr>checklist_items :=
                   map (\<lambda>r. if c_id r = iid
                             then r\<lparr>c_status := status, c_notes := notes,
                                    c_updated_at := lit now\<rparr>
                             else r) (checklist_items s)\<rparr>))"

definition resolve_defect :: "db \<Rightarrow> string \<Rightarrow> int \<Rightarrow> error + (bool \<times> db)" where
  "resolve_defect s now did =
     (case bind_parameters [PInt did] of
        Some e \<Rightarrow> Inl e
      | None \<Rightarrow>
          Inr (length (filter (\<lambda>r. d_id r = did) (defects s)) > 0,
               s\<lparr>defects :=
                   map (\<lambda>r. if d_id r = did
                             then r\<lparr>d_status := lit ''resolved'',
                                    d_resolved_at := Some (lit now)\<rparr>
                             else r) (defects s)\<rparr>))"

text \<open>
  The filter argument is used, and bound, only when it is truthy: \<open>None\<close> and the empty
  string both leave the query without a \<open>WHERE\<close>. Each returned dict is represented by
  its row; \<open>export_json\<close> below writes the dicts out.
\<close>

definition truthy :: "str option \<Rightarrow> bool" where
  "truthy v = (case v of None \<Rightarrow> False | Some x \<Rightarrow> x \<noteq> [])"

definition list_checklist_items :: "db \<Rightarrow> str option \<Rightarrow> error + checklist_row list" where
  "list_checklist_items s category =
     (if truthy category
      then (case bind_parameters [PText (the category)] of
              Some e \<Rightarrow> Inl e
            | None \<Rightarrow>
                Inr (order_by_desc c_created_at
                       (filter (\<lambda>r. Some (c_category r) = category) (checklist_items s))))
      else Inr (order_by_desc c_created_at (checklist_items s)))"

definition list_defects :: "db \<Rightarrow> str option \<Rightarrow> error + defect_row list" where
  "list_defects s status =
     (if truthy status
      then (case bind_parameters [PText (the status)] of
              Some e \<Rightarrow> Inl e
            | None \<Rightarrow>
                Inr (order_by_desc d_created_at
                       (filter (\<lambda>r. Some (d_status r) = status) (defects s))))
      else Inr (order_by_desc d_created_at (defects s)))"

text \<open>
  The result of \<open>get_stats\<close>: two dicts, kept as the lists of their entries in the
  order the comprehension inserts them; \<open>map_of\<close> reads one as a mapping.
\<close>

record stats =
  checklist :: "(str \<times> int) list"
  open_defects_by_severity :: "(str \<times> int) list"

definition get_stats :: "db \<Rightarrow> stats" where
  "get_stats s =
     \<lparr>checklist = group_count (map c_status (checklist_items s)),
      open_defects_by_severity =
        group_count (map d_severity (filter (\<lambda>r. d_status r = lit ''open'') (defects s)))\<rparr>"

section \<open>The export document\<close>

text \<open>
  The value that \<open>export_json\<close> hands to \<open>json.dumps\<close>. An object is the list of
  its members in the order of the dict; \<open>dict(r)\<close> of a row has the columns as keys.
\<close>

datatype json = JNull | JInt int | JStr str | JArr "json list" | JObj "(str \<times> json) list"

definition checklist_row_dict :: "checklist_row \<Rightarrow> json" where
  "checklist_row_dict r =
     JObj [(lit ''id'', JInt (c_id r)), (lit ''title'', JStr (c_title r)),
           (lit ''category'', JStr (c_category r)), (lit ''severity'', JStr (c_severity r)),
           (lit ''status'', JStr (c_status r)), (lit ''notes'', JStr (c_notes r)),
           (lit ''created_at'', JStr (c_created_at r)),
           (lit ''updated_at'', JStr (c_updated_at r))]"

definition defect_row_dict :: "defect_row \<Rightarrow> json" where
  "defect_row_dict r =
     JObj [(lit ''id'', JInt (d_id r)), (lit ''title'', JStr (d_title r)),
           (lit ''description'', JStr (d_description r)),
           (lit ''severity'', JStr (d_severity r)),
           (lit ''component'', JStr (d_component r)), (lit ''status'', JStr (d_status r)),
           (lit ''assignee'', JStr (d_assignee r)), (lit ''created_at'', JStr (d_created_at r)),
           (lit ''resolved_at'',
            (case d_resolved_at r of None \<Rightarrow> JNull | Some t \<Rightarrow> JStr t))]"

definition counts_dict :: "(str \<times> int) list \<Rightarrow> json" where
  "counts_dict kvs = JObj (map (\<lambda>(k, n). (k, JInt n)) kvs)"

definition stats_dict :: "stats \<Rightarrow> json" where
  "stats_dict st =
     JObj [(lit ''checklist'', counts_dict (checklist st)),
           (lit ''open_defects_by_severity'', counts_dict (open_defects_by_severity st))]"

definition export_json :: "db \<Rightarrow> string \<Rightarrow> error + json" where
  "export_json s now =
     (case list_checklist_items s None of
        Inl e \<Rightarrow> Inl e
      | Inr items \<Rightarrow>
         (case list_defects s None of
            Inl e \<Rightarrow> Inl e
          | Inr ds \<Rightarrow>
              Inr (JObj [(lit ''checklist_items'', JArr (map checklist_row_dict items)),
                         (lit ''defects'', JArr (map defect_row_dict ds)),
                         (lit ''stats'', stats_dict (get_stats s)),
                         (lit ''exported_at'', JStr (lit now))])))"




section \<open>Sequences of calls on one store\<close>

text \<open>
  A client of the class makes calls one after the other on the same database file;
  each call is paired with the clock reading it would get from \<open>datetime.now()\<close>.
  An exception ends the sequence.
\<close>

datatype call =
    AddItem ChecklistItem
  | AddDefect Defect
  | UpdateStatus int str str
  | ResolveDefect int
  | ListItems "str option"
  | ListDefects "str option"
  | GetStats
  | Export

datatype result =
    RId int
  | RBool bool
  | RItems "checklist_row list"
  | RDefects "defect_row list"
  | RStats stats
  | RDoc json

fun exec :: "db \<Rightarrow> string \<Rightarrow> call \<Rightarrow> error + (result \<times> db)" where
  "exec s now (AddItem item) = map_sum id (\<lambda>(i, s'). (RId i, s')) (add_checklist_item s item)"
| "exec s now (AddDefect defect) = map_sum id (\<lambda>(i, s'). (RId i, s')) (add_defect s defect)"
| "exec s now (UpdateStatus iid status notes) =
     map_sum id (\<lambda>(b, s'). (RBool b, s')) (update_checklist_status s now iid status notes)"
| "exec s now (ResolveDefect did) = map_sum id (\<lambda>(b, s'). (RBool b, s')) (resolve_defect s now did)"
| "exec s now (ListItems category) =
     map_sum id (\<lambda>rows. (RItems rows, s)) (list_checklist_items s category)"
| "exec s now (ListDefects status) = map_sum id (\<lambda>rows. (RDefects rows, s)) (list_defects s status)"
| "exec s now GetStats = Inr (RStats (get_stats s), s)"
| "exec s now Export = map_sum id (\<lambda>doc. (RDoc doc, s)) (export_json s now)"

fun run :: "db \<Rightarrow> (string \<times> call) list \<Rightarrow> error + (result list \<times> db)" where
  "run s [] = Inr ([], s)"
| "run s ((now, c) # cs) =
     (case exec s now c of
        Inl e \<Rightarrow> Inl e
      | Inr (r, s') \<Rightarrow>
          (case run s' cs of Inl e \<Rightarrow> Inl e | Inr (rs, s'') \<Rightarrow> Inr (r # rs, s'')))"

text \<open>The ids that the \<open>AddItem\<close> calls, and the \<open>AddDefect\<close> calls, of a sequence returned.\<close>

fun item_ids :: "((string \<times> call) \<times> result) list \<Rightarrow> int list" where
  "item_ids [] = []"
| "item_ids (((now, AddItem item), RId i) # xs) = i # item_ids xs"
| "item_ids (x # xs) = item_ids xs"

fun defect_ids :: "((string \<times> call) \<times> result) list \<Rightarrow> int list" where
  "defect_ids [] = []"
| "defect_ids (((now, AddDefect defect), RId i) # xs) = i # defect_ids xs"
| "defect_ids (x # xs) = defect_ids xs"


text \<open>The calls all of whose arguments bind.\<close>

fun binds :: "call \<Rightarrow> bool" where
  "binds (AddItem item) = bindable_item item"
| "binds (AddDefect defect) = bindable_defect defect"
| "binds (UpdateStatus iid status notes) = (bindable status \<and> bindable notes \<and> in_int64 iid)"
| "binds (ResolveDefect did) = in_int64 did"
| "binds (ListItems category) =
     (case category of None \<Rightarrow> True | Some t \<Rightarrow> t = [] \<or> bindable t)"
| "binds (ListDefects status) =
     (case status of None \<Rightarrow> True | Some t \<Rightarrow> t = [] \<or> bindable t)"
| "binds GetStats = True"
| "binds Export = True"

text \<open>The largest rowid each table has ever held, as \<open>AUTOINCREMENT\<close> sees it.\<close>

definition checklist_high :: "db \<Rightarrow> int" where
  "checklist_high s = largest_rowid (checklist_seq s) (map c_id (checklist_items s))"

definition defects_high :: "db \<Rightarrow> int" where
  "defects_high s = largest_rowid (defects_seq s) (map d_id (defects s))"

text \<open>
  What the schema's \<open>INTEGER PRIMARY KEY\<close> keeps true of a table: the ids of its rows
  are pairwise different 64-bit integers.
\<close>

definition primary_key :: "int list \<Rightarrow> bool" where
  "primary_key ids = (distinct ids \<and> list_all in_int64 ids)"

definition wf_db :: "db \<Rightarrow> bool" where
  "wf_db s =
     (primary_key (map c_id (checklist_items s)) \<and> in_int64 (checklist_seq s) \<and>
      primary_key (map d_id (defects s)) \<and> in_int64 (defects_seq s))"




section \<open>Sample data\<close>

definition sample_item :: ChecklistItem where
  "sample_item =
     \<lparr>item_id = None, item_title = lit ''Run linter'', item_category = lit ''general'',
      item_severity = lit ''medium'', item_status = lit ''pending'', item_notes = [],
      item_created_at = lit ''2026-11-01T01:30:00'',
      item_updated_at = lit ''2026-11-01T01:30:00''\<rparr>"

definition sample_defect :: Defect where
  "sample_defect =
     \<lparr>defect_id = None, defect_title = lit ''Crash on save'', defect_description = [],
      defect_severity = lit ''high'', defect_component = lit ''general'',
      defect_status = lit ''open'', defect_assignee = [],
      defect_created_at = lit ''2026-11-01T01:20:00'', defect_resolved_at = None\<rparr>"

definition sample_row :: checklist_row where
  "sample_row =
     \<lparr>c_id = 1, c_title = lit ''Run linter'', c_category = lit ''general'',
      c_severity = lit ''medium'', c_status = lit ''pending'', c_notes = [],
      c_created_at = lit ''2026-11-01T01:30:00'', c_updated_at = lit ''2026-11-01T01:30:00''\<rparr>"

definition sample_defect_row :: defect_row where
  "sample_defect_row =
     \<lparr>d_id = 1, d_title = lit ''Crash on save'', d_description = [], d_severity = lit ''high'',
      d_component = lit ''general'', d_status = lit ''open'', d_assignee = [],
      d_created_at = lit ''2026-11-01T01:20:00'', d_resolved_at = None\<rparr>"

text \<open>The store after \<open>sample_item\<close> and \<open>sample_defect\<close> were added to a new one.\<close>

definition sample_db :: db where
  "sample_db =
     \<lparr>checklist_items = [sample_row], checklist_seq = 1,
      defects = [sample_defect_row], defects_seq = 1\<rparr>"

text \<open>A text that UTF-8 cannot encode: the lone surrogate U+D800.\<close>

definition lone_surrogate :: str where
  "lone_surrogate = [55296]"

section \<open>Facts about the building blocks\<close>






lemma map_of_group_count:
  "map_of (group_count ks) k = (if k \<in> set ks then Some (int (count_list ks k)) else None)"
proof -
  have "map_of (map (\<lambda>k. (k, g k)) xs) k = (if k \<in> set xs then Some (g k) else None)"
    for g :: "str \<Rightarrow> int" and xs
    by (induction xs) auto
  then show ?thesis by (simp add: group_count_def)
qed

lemma distinct_group_count: "distinct (map fst (group_count ks))"
  by (simp add: group_count_def comp_def)

lemma count_list_map_filter: "count_list (map f xs) k = length (filter (\<lambda>r. f r = k) xs)"
  by (induction xs) auto

lemma map_upd_no_match:
  "\<forall>r\<in>set rows. \<not> P r \<Longrightarrow> map (\<lambda>r. if P r then g r else r) rows = rows"
  by (induction rows) auto

lemma filter_no_match: "\<forall>r\<in>set rows. \<not> P r \<Longrightarrow> filter P rows = []"
  by (induction rows) auto

subsection \<open>Binding\<close>

lemma bind_text_iff: "(bind_param (PText t) = None) = bindable t"
  by (simp add: bindable_def)

lemma bind_int_iff: "(bind_param (PInt i) = None) = in_int64 i"
  by simp

lemma bind_parameters_iff: "(bind_parameters ps = None) = (\<forall>p\<in>set ps. bind_param p = None)"
  by (induction ps) (auto split: option.splits)

lemma of_char_less_256: "(of_char c :: nat) < 256"
proof -
  have "(of_char c :: nat) mod 256 = of_char c" by simp
  then show ?thesis by (metis mod_less_divisor zero_less_numeral)
qed

lemma encodable_lit: "encodable (lit cs)"
proof -
  have "scalar_value (of_char c)" for c
    unfolding scalar_value_def using of_char_less_256 [of c] by linarith
  then show ?thesis
    by (simp add: encodable_def lit_def list_all_iff)
qed

lemma utf8_length_lit: "utf8_length (lit cs) \<le> 2 * length cs"
proof (induction cs)
  case Nil
  then show ?case by (simp add: utf8_length_def lit_def)
next
  case (Cons c cs)
  have "(of_char c :: nat) < 2048"
    using of_char_less_256 [of c] by linarith
  then have "utf8_len (of_char c) \<le> 2"
    by (simp add: utf8_len_def)
  with Cons show ?case by (simp add: utf8_length_def lit_def)
qed

lemma bindable_lit: "2 * length cs \<le> max_length \<Longrightarrow> bindable (lit cs)"
  using utf8_length_lit [of cs] by (simp add: bindable_def encodable_lit)

lemma bindable_Nil: "bindable []"
  by (simp add: bindable_def encodable_def utf8_length_def)

lemma bindable_sample_item: "bindable_item sample_item"
  by (simp add: bindable_item_def sample_item_def bindable_lit bindable_Nil max_length_def)

lemma bindable_sample_defect: "bindable_defect sample_defect"
  by (simp add: bindable_defect_def sample_defect_def bindable_lit bindable_Nil max_length_def)

lemma not_bindable_lone_surrogate: "\<not> bindable lone_surrogate"
  by (simp add: bindable_def encodable_def scalar_value_def lone_surrogate_def)

lemma add_checklist_item_binds:
  "bindable_item item \<Longrightarrow>
   add_checklist_item s item =
     (case next_rowid (checklist_seq s) (map c_id (checklist_items s)) of
        Inl e \<Rightarrow> Inl e
      | Inr rid \<Rightarrow>
          Inr (rid, s\<lparr>checklist_items := checklist_items s @
                 [\<lparr>c_id = rid, c_title = item_title item, c_category = item_category item,
                   c_severity = item_severity item, c_status = item_status item,
                   c_notes = item_notes item, c_created_at = item_created_at item,
                   c_updated_at = item_updated_at item\<rparr>],
                 checklist_seq := rid\<rparr>))"
  by (simp add: add_checklist_item_def bindable_item_def bindable_def)

lemma add_checklist_item_Inr_binds:
  "add_checklist_item s item = Inr (i, s') \<Longrightarrow> bindable_item item"
  by (auto simp: add_checklist_item_def bindable_item_def bindable_def
      split: option.splits if_splits)

lemma add_defect_binds:
  "bindable_defect defect \<Longrightarrow>
   add_defect s defect =
     (case next_rowid (defects_seq s) (map d_id (defects s)) of
        Inl e \<Rightarrow> Inl e
      | Inr rid \<Rightarrow>
          Inr (rid, s\<lparr>defects := defects s @
                 [\<lparr>d_id = rid, d_title = defect_title defect,
                   d_description = defect_description defect,
                   d_severity = defect_severity defect,
                   d_component = defect_component defect, d_status = defect_status defect,
                   d_assignee = defect_assignee defect,
                   d_created_at = defect_created_at defect,
                   d_resolved_at = defect_resolved_at defect\<rparr>],
                 defects_seq := rid\<rparr>))"
  by (auto simp: add_defect_def bindable_defect_def bindable_def split: option.splits)

lemma add_defect_Inr_binds:
  "add_defect s defect = Inr (i, s') \<Longrightarrow> bindable_defect defect"
  by (auto simp: add_defect_def bindable_defect_def bindable_def
      split: option.splits if_splits)

lemma update_checklist_status_binds:
  "bindable status \<Longrightarrow> bindable notes \<Longrightarrow> in_int64 iid \<Longrightarrow>
   update_checklist_status s now iid status notes =
     Inr (length (filter (\<lambda>r. c_id r = iid) (checklist_items s)) > 0,
          s\<lparr>checklist_items :=
              map (\<lambda>r. if c_id r = iid
                        then r\<lparr>c_status := status, c_notes := notes, c_updated_at := lit now\<rparr>
                        else r) (checklist_items s)\<rparr>)"
  by (simp add: update_checklist_status_def bindable_def)

lemma update_checklist_status_Inr:
  "update_checklist_status s now iid status notes = Inr (b, s') \<Longrightarrow>
   bindable status \<and> bindable notes \<and> in_int64 iid \<and>
   b = (length (filter (\<lambda>r. c_id r = iid) (checklist_items s)) > 0) \<and>
   s' = s\<lparr>checklist_items :=
              map (\<lambda>r. if c_id r = iid
                        then r\<lparr>c_status := status, c_notes := notes, c_updated_at := lit now\<rparr>
                        else r) (checklist_items s)\<rparr>"
  by (auto simp: update_checklist_status_def bindable_def split: option.splits if_splits)

lemma resolve_defect_binds:
  "in_int64 did \<Longrightarrow>
   resolve_defect s now did =
     Inr (length (filter (\<lambda>r. d_id r = did) (defects s)) > 0,
          s\<lparr>defects :=
              map (\<lambda>r. if d_id r = did
                        then r\<lparr>d_status := lit ''resolved'', d_resolved_at := Some (lit now)\<rparr>
                        else r) (defects s)\<rparr>)"
  by (simp add: resolve_defect_def)

lemma resolve_defect_Inr:
  "resolve_defect s now did = Inr (b, s') \<Longrightarrow>
   in_int64 did \<and> b = (length (filter (\<lambda>r. d_id r = did) (defects s)) > 0) \<and>
   s' = s\<lparr>defects :=
              map (\<lambda>r. if d_id r = did
                        then r\<lparr>d_status := lit ''resolved'', d_resolved_at := Some (lit now)\<rparr>
                        else r) (defects s)\<rparr>"
  by (auto simp: resolve_defect_def split: option.splits if_splits)

lemma list_checklist_items_None:
  "list_checklist_items s None = Inr (order_by_desc c_created_at (checklist_items s))"
  by (simp add: list_checklist_items_def truthy_def)

lemma list_defects_None: "list_defects s None = Inr (order_by_desc d_created_at (defects s))"
  by (simp add: list_defects_def truthy_def)

subsection \<open>Evaluating the sample data\<close>

lemmas sample_defs =
  new_db_def sample_db_def sample_item_def sample_defect_def sample_row_def
  sample_defect_row_def lone_surrogate_def lit_def

lemmas bind_defs =
  encodable_def scalar_value_def utf8_length_def utf8_len_def max_length_def in_int64_def
  max_rowid_def

lemmas store_defs =
  add_checklist_item_def add_defect_def update_checklist_status_def resolve_defect_def
  list_checklist_items_def list_defects_def truthy_def order_by_desc_def next_rowid_def
  largest_rowid_def

lemma run_sample_db:
  "run new_db [(t1, AddItem sample_item), (t2, AddDefect sample_defect)]
     = Inr ([RId 1, RId 1], sample_db)"
  by (simp add: sample_defs bind_defs store_defs)

section \<open>Updating the status of an id that matches no row\<close>

text \<open>
  C3, as the code has it: for every id that fits SQLite's 64-bit INTEGER and matches no
  row of \<open>checklist_items\<close>, and every status and notes that bind (text that UTF-8 can
  encode, in at most 1,000,000,000 bytes), \<open>update_checklist_status\<close> returns \<open>False\<close>,
  raises nothing and leaves the whole database, both tables and both counters, as it was.
\<close>

theorem update_unknown_id:
  assumes "in_int64 iid" and "bindable status" and "bindable notes"
    and "iid \<notin> c_id ` set (checklist_items s)"
  shows "update_checklist_status s now iid status notes = Inr (False, s)"
proof -
  have nm: "\<forall>r\<in>set (checklist_items s). \<not> c_id r = iid"
    using assms(4) by auto
  show ?thesis
    using assms(1-3)
    by (simp add: update_checklist_status_binds map_upd_no_match [OF nm]
        filter_no_match [OF nm])
qed

theorem update_unknown_id_witness:
  "in_int64 7 \<and> bindable (lit ''passed'') \<and> bindable (lit ''ok'') \<and>
   7 \<notin> c_id ` set (checklist_items sample_db) \<and>
   update_checklist_status sample_db ''2026-11-03T09:00:00'' 7 (lit ''passed'') (lit ''ok'')
     = Inr (False, sample_db)"
proof -
  have a: "in_int64 7"
    by (simp add: in_int64_def max_rowid_def)
  have b: "bindable (lit ''passed'')" and c: "bindable (lit ''ok'')"
    by (simp_all add: bindable_lit max_length_def)
  have d: "7 \<notin> c_id ` set (checklist_items sample_db)"
    by (simp add: sample_db_def sample_row_def)
  show ?thesis
    using a b c d update_unknown_id [OF a b c d] by simp
qed

text \<open>
  Outside these bounds the call raises instead of returning \<open>False\<close>, whatever the
  table holds.
\<close>

lemma update_raises:
  assumes "\<not> (in_int64 iid \<and> bindable status \<and> bindable notes)"
  shows "\<exists>e. update_checklist_status s now iid status notes = Inl e"
  using assms
  by (auto simp: update_checklist_status_def bindable_def split: option.splits)

text \<open>
  C3 as the spec words it, "for every id ... raises no error", fails outside these
  bounds: the id \<open>2^63\<close> matches no row of a new store, and binding it to the statement
  raises \<open>OverflowError\<close>; the id 7 matches no row of the sample store, and binding a
  status with a lone surrogate raises \<open>UnicodeEncodeError\<close>.
\<close>

theorem update_unknown_id_counterexample:
  "9223372036854775808 \<notin> c_id ` set (checklist_items new_db) \<and>
   update_checklist_status new_db ''2026-11-03T09:00:00'' 9223372036854775808
       (lit ''passed'') (lit ''ok'')
     = Inl OverflowError \<and>
   7 \<notin> c_id ` set (checklist_items sample_db) \<and>
   update_checklist_status sample_db ''2026-11-03T09:00:00'' 7 lone_surrogate (lit ''ok'')
     = Inl UnicodeEncodeError"
  by (simp add: sample_defs bind_defs store_defs)

section \<open>The empty string as a filter\<close>


section \<open>Aggregate statistics\<close>

lemma map_of_group_count_map:
  "map_of (group_count (map f rows)) k =
     (let n = length (filter (\<lambda>r. f r = k) rows) in if n = 0 then None else Some (int n))"
proof -
  have "(k \<in> set (map f rows)) = (length (filter (\<lambda>r. f r = k) rows) \<noteq> 0)"
    by (auto simp: filter_empty_conv)
  then show ?thesis
    by (simp add: map_of_group_count count_list_map_filter Let_def)
qed

lemma stats_checklist:
  "map_of (checklist (get_stats s)) k =
     (let n = length (filter (\<lambda>r. c_status r = k) (checklist_items s))
      in if n = 0 then None else Some (int n))"
  by (simp add: get_stats_def map_of_group_count_map)

lemma stats_open_defects:
  "map_of (open_defects_by_severity (get_stats s)) k =
     (let n = length (filter (\<lambda>r. d_status r = lit ''open'' \<and> d_severity r = k) (defects s))
      in if n = 0 then None else Some (int n))"
proof -
  have "filter (\<lambda>r. d_severity r = k) (filter (\<lambda>r. d_status r = lit ''open'') (defects s))
      = filter (\<lambda>r. d_status r = lit ''open'' \<and> d_severity r = k) (defects s)"
    by (simp add: conj_commute)
  then show ?thesis
    by (simp add: get_stats_def map_of_group_count_map)
qed

lemma bindable_item_status:
  "bindable_item item \<Longrightarrow> bindable st \<Longrightarrow> bindable_item (item\<lparr>item_status := st\<rparr>)"
  by (simp add: bindable_item_def)

lemma bindable_defect_status_severity:
  "bindable_defect defect \<Longrightarrow> bindable st \<Longrightarrow> bindable sev \<Longrightarrow>
     bindable_defect (defect\<lparr>defect_status := st, defect_severity := sev\<rparr>)"
  by (simp add: bindable_defect_def)

lemma stats_example:
  assumes "bindable_item i1" "bindable_item i2" "bindable_item i3"
    and "bindable_defect d1" "bindable_defect d2" "bindable_defect d3"
  shows "\<exists>rs s'. run new_db
        [(t1, AddItem (i1\<lparr>item_status := lit ''pending''\<rparr>)),
         (t2, AddItem (i2\<lparr>item_status := lit ''pending''\<rparr>)),
         (t3, AddItem (i3\<lparr>item_status := lit ''passed''\<rparr>)),
         (t4, AddDefect (d1\<lparr>defect_status := lit ''open'', defect_severity := lit ''high''\<rparr>)),
         (t5, AddDefect (d2\<lparr>defect_status := lit ''open'', defect_severity := lit ''high''\<rparr>)),
         (t6, AddDefect (d3\<lparr>defect_status := lit ''resolved'',
                            defect_severity := lit ''critical''\<rparr>))]
       = Inr (rs, s') \<and>
      map_of (checklist (get_stats s')) = [lit ''pending'' \<mapsto> 2, lit ''passed'' \<mapsto> 1] \<and>
      map_of (open_defects_by_severity (get_stats s')) = [lit ''high'' \<mapsto> 2]"
proof -
  have l: "bindable (lit ''pending'')" "bindable (lit ''passed'')" "bindable (lit ''open'')"
    "bindable (lit ''high'')" "bindable (lit ''resolved'')" "bindable (lit ''critical'')"
    by (simp_all add: bindable_lit max_length_def)
  note bi = assms(1-3) [THEN bindable_item_status]
  note bd = assms(4-6) [THEN bindable_defect_status_severity]
  show ?thesis
    using bi [OF l(1)] bi [OF l(2)] bd [OF l(3) l(4)] bd [OF l(5) l(6)]
    by (simp add: add_checklist_item_binds add_defect_binds new_db_def next_rowid_def
        largest_rowid_def max_rowid_def get_stats_def group_count_def lit_def)
qed

text \<open>
  C1: \<open>get_stats\<close> counts the checklist rows by status over all rows whatever their
  status, and the defect rows by severity over the rows whose status is exactly
  \<open>open\<close>; a key is present only with a positive count, and once. After three
  checklist items with statuses pending, pending, passed were added to a new store the
  checklist mapping is \<open>{pending: 2, passed: 1}\<close>; after two open defects of severity
  high and one resolved defect of severity critical the open-defect mapping is
  \<open>{high: 2}\<close> (for any items and defects that can be added, that is whose fields bind).
\<close>

theorem get_stats_grouped_counts:
  "map_of (checklist (get_stats s)) k =
     (let n = length (filter (\<lambda>r. c_status r = k) (checklist_items s))
      in if n = 0 then None else Some (int n)) \<and>
   map_of (open_defects_by_severity (get_stats s)) k =
     (let n = length (filter (\<lambda>r. d_status r = lit ''open'' \<and> d_severity r = k) (defects s))
      in if n = 0 then None else Some (int n)) \<and>
   distinct (map fst (checklist (get_stats s))) \<and>
   distinct (map fst (open_defects_by_severity (get_stats s))) \<and>
   (bindable_item i1 \<and> bindable_item i2 \<and> bindable_item i3 \<and>
    bindable_defect d1 \<and> bindable_defect d2 \<and> bindable_defect d3 \<longrightarrow>
    (\<exists>rs s'. run new_db
        [(t1, AddItem (i1\<lparr>item_status := lit ''pending''\<rparr>)),
         (t2, AddItem (i2\<lparr>item_status := lit ''pending''\<rparr>)),
         (t3, AddItem (i3\<lparr>item_status := lit ''passed''\<rparr>)),
         (t4, AddDefect (d1\<lparr>defect_status := lit ''open'', defect_severity := lit ''high''\<rparr>)),
         (t5, AddDefect (d2\<lparr>defect_status := lit ''open'', defect_severity := lit ''high''\<rparr>)),
         (t6, AddDefect (d3\<lparr>defect_status := lit ''resolved'',
                            defect_severity := lit ''critical''\<rparr>))]
       = Inr (rs, s') \<and>
      map_of (checklist (get_stats s')) = [lit ''pending'' \<mapsto> 2, lit ''passed'' \<mapsto> 1] \<and>
      map_of (open_defects_by_severity (get_stats s')) = [lit ''high'' \<mapsto> 2]))"
proof -
  have "distinct (map fst (checklist (get_stats s)))"
    by (simp add: get_stats_def distinct_group_count)
  moreover have "distinct (map fst (open_defects_by_severity (get_stats s)))"
    by (simp add: get_stats_def distinct_group_count)
  ultimately show ?thesis
    using stats_checklist [of s k] stats_open_defects [of s k]
      stats_example [of i1 i2 i3 d1 d2 d3 t1 t2 t3 t4 t5 t6]
    by blast
qed

theorem get_stats_grouped_counts_witness:
  "bindable_item sample_item \<and> bindable_defect sample_defect \<and>
   map_of (checklist (get_stats sample_db)) (lit ''pending'') = Some 1 \<and>
   map_of (open_defects_by_severity (get_stats sample_db)) (lit ''high'') = Some 1 \<and>
   (\<exists>rs s'. run new_db
        [(''2026-11-01T01:30:00'', AddItem (sample_item\<lparr>item_status := lit ''pending''\<rparr>)),
         (''2026-11-01T01:30:01'', AddItem (sample_item\<lparr>item_status := lit ''pending''\<rparr>)),
         (''2026-11-01T01:30:02'', AddItem (sample_item\<lparr>item_status := lit ''passed''\<rparr>)),
         (''2026-11-01T01:30:03'',
          AddDefect (sample_defect\<lparr>defect_status := lit ''open'',
                                   defect_severity := lit ''high''\<rparr>)),
         (''2026-11-01T01:30:04'',
          AddDefect (sample_defect\<lparr>defect_status := lit ''open'',
                                   defect_severity := lit ''high''\<rparr>)),
         (''2026-11-01T01:30:05'',
          AddDefect (sample_defect\<lparr>defect_status := lit ''resolved'',
                                   defect_severity := lit ''critical''\<rparr>))]
       = Inr (rs, s') \<and>
      map_of (checklist (get_stats s')) = [lit ''pending'' \<mapsto> 2, lit ''passed'' \<mapsto> 1] \<and>
      map_of (open_defects_by_severity (get_stats s')) = [lit ''high'' \<mapsto> 2])"
proof -
  note t = get_stats_grouped_counts [of sample_db _ sample_item sample_item sample_item
      sample_defect sample_defect sample_defect
      "''2026-11-01T01:30:00''" "''2026-11-01T01:30:01''" "''2026-11-01T01:30:02''"
      "''2026-11-01T01:30:03''" "''2026-11-01T01:30:04''" "''2026-11-01T01:30:05''"]
  have p: "map_of (checklist (get_stats sample_db)) (lit ''pending'') = Some 1"
    using t [of "lit ''pending''"] by (simp add: sample_db_def sample_row_def)
  have h: "map_of (open_defects_by_severity (get_stats sample_db)) (lit ''high'') = Some 1"
    using t [of "lit ''high''"] by (simp add: sample_db_def sample_defect_row_def)
  show ?thesis
    using t [of "lit ''pending''"] p h bindable_sample_item bindable_sample_defect by blast
qed

section \<open>Export\<close>






lemma export_json_Inr:
  "export_json s now =
     Inr (JObj [(lit ''checklist_items'',
                 JArr (map checklist_row_dict (order_by_desc c_created_at (checklist_items s)))),
                (lit ''defects'',
                 JArr (map defect_row_dict (order_by_desc d_created_at (defects s)))),
                (lit ''stats'', stats_dict (get_stats s)),
                (lit ''exported_at'', JStr (lit now))])"
  by (simp add: export_json_def list_checklist_items_None list_defects_None)












section \<open>Updating the status of an existing item\<close>





lemma length_filter_le_one:
  "distinct (map f rows) \<Longrightarrow> length (filter (\<lambda>r. f r = k) rows) \<le> 1"
proof (induction rows)
  case Nil
  then show ?case by simp
next
  case (Cons a rows)
  show ?case
  proof (cases "f a = k")
    case True
    with Cons.prems have "\<forall>r\<in>set rows. \<not> f r = k" by (auto simp: image_iff)
    then have "filter (\<lambda>r. f r = k) rows = []" by (rule filter_no_match)
    with True show ?thesis by simp
  next
    case False
    with Cons show ?thesis by simp
  qed
qed

lemma update_map_ids:
  "map (c_id \<circ> (\<lambda>r. if c_id r = iid
                       then r\<lparr>c_status := st, c_notes := n, c_updated_at := t\<rparr> else r)) rows
     = map c_id rows"
  by (induction rows) auto

lemma resolve_map_ids:
  "map (d_id \<circ> (\<lambda>r. if d_id r = did then r\<lparr>d_status := st, d_resolved_at := t\<rparr> else r)) rows
     = map d_id rows"
  by (induction rows) auto

lemma wf_sample_db: "wf_db sample_db"
  by (simp add: wf_db_def primary_key_def sample_db_def sample_row_def sample_defect_row_def
      in_int64_def max_rowid_def)




section \<open>Resolving a defect\<close>






section \<open>What an operation leaves alone\<close>

lemma add_checklist_item_rows:
  "add_checklist_item s item = Inr (i, s') \<Longrightarrow>
     (\<exists>row. checklist_items s' = checklist_items s @ [row] \<and> c_id row = i) \<and>
     defects s' = defects s \<and> defects_seq s' = defects_seq s \<and> checklist_seq s' = i \<and>
     i = largest_rowid (checklist_seq s) (map c_id (checklist_items s)) + 1 \<and> i \<le> max_rowid"
  by (auto simp: add_checklist_item_def next_rowid_def split: if_splits option.splits)

lemma add_defect_rows:
  "add_defect s defect = Inr (i, s') \<Longrightarrow>
     (\<exists>row. defects s' = defects s @ [row] \<and> d_id row = i) \<and>
     checklist_items s' = checklist_items s \<and> checklist_seq s' = checklist_seq s \<and>
     defects_seq s' = i \<and>
     i = largest_rowid (defects_seq s) (map d_id (defects s)) + 1 \<and> i \<le> max_rowid"
  by (auto simp: add_defect_def next_rowid_def split: if_splits option.splits)

lemma exec_keeps_created_at:
  assumes "exec s now c = Inr (res, s')"
  shows "list_all2 (\<lambda>r r'. c_id r' = c_id r \<and> c_created_at r' = c_created_at r)
           (checklist_items s) (take (length (checklist_items s)) (checklist_items s')) \<and>
         list_all2 (\<lambda>r r'. d_id r' = d_id r \<and> d_created_at r' = d_created_at r)
           (defects s) (take (length (defects s)) (defects s'))"
proof (cases c)
  case (AddItem item)
  with assms obtain i where "add_checklist_item s item = Inr (i, s')"
    by (cases "add_checklist_item s item") auto
  from add_checklist_item_rows [OF this] show ?thesis
    by (auto simp: list_all2_same)
next
  case (AddDefect defect)
  with assms obtain i where "add_defect s defect = Inr (i, s')"
    by (cases "add_defect s defect") auto
  from add_defect_rows [OF this] show ?thesis
    by (auto simp: list_all2_same)
next
  case (UpdateStatus iid st nts)
  with assms show ?thesis
    by (auto simp: update_checklist_status_def list_all2_map2 list_all2_same
        split: if_splits option.splits)
next
  case (ResolveDefect did)
  with assms show ?thesis
    by (auto simp: resolve_defect_def list_all2_map2 list_all2_same
        split: if_splits option.splits)
qed (use assms in \<open>auto simp: list_all2_same export_json_Inr list_checklist_items_def
      list_defects_def split: if_splits option.splits\<close>)

text \<open>
  C9: no operation rewrites the \<open>created_at\<close> of a row: after any call that returns,
  every row that was in a table is still at its place with the same id and the same
  \<open>created_at\<close>. \<open>update_checklist_status\<close> leaves the defects and both counters alone,
  matches at most one row, leaves every row of another id as it was and keeps id, title,
  category, severity and \<open>created_at\<close> of the row it matches (so it changes at most status,
  notes and \<open>updated_at\<close>). \<open>resolve_defect\<close> leaves the checklist and both counters
  alone, matches at most one row, leaves every row of another id as it was and keeps id,
  title, description, severity, component, assignee and \<open>created_at\<close> of the row it matches
  (so it changes at most status and \<open>resolved_at\<close>).
\<close>

theorem created_at_never_rewritten:
  assumes wf: "wf_db s"
  shows
  "(exec s now c = Inr (res, s') \<longrightarrow>
      list_all2 (\<lambda>r r'. c_id r' = c_id r \<and> c_created_at r' = c_created_at r)
        (checklist_items s) (take (length (checklist_items s)) (checklist_items s')) \<and>
      list_all2 (\<lambda>r r'. d_id r' = d_id r \<and> d_created_at r' = d_created_at r)
        (defects s) (take (length (defects s)) (defects s'))) \<and>
   (update_checklist_status s now iid status notes = Inr (b1, s1) \<longrightarrow>
      defects s1 = defects s \<and> checklist_seq s1 = checklist_seq s \<and>
      defects_seq s1 = defects_seq s \<and>
      length (filter (\<lambda>r. c_id r = iid) (checklist_items s)) \<le> 1 \<and>
      list_all2 (\<lambda>r r'. c_id r' = c_id r \<and> c_title r' = c_title r \<and>
                   c_category r' = c_category r \<and> c_severity r' = c_severity r \<and>
                   c_created_at r' = c_created_at r \<and> (c_id r \<noteq> iid \<longrightarrow> r' = r))
        (checklist_items s) (checklist_items s1)) \<and>
   (resolve_defect s now did = Inr (b2, s2) \<longrightarrow>
      checklist_items s2 = checklist_items s \<and> checklist_seq s2 = checklist_seq s \<and>
      defects_seq s2 = defects_seq s \<and>
      length (filter (\<lambda>r. d_id r = did) (defects s)) \<le> 1 \<and>
      list_all2 (\<lambda>r r'. d_id r' = d_id r \<and> d_title r' = d_title r \<and>
                   d_description r' = d_description r \<and> d_severity r' = d_severity r \<and>
                   d_component r' = d_component r \<and> d_assignee r' = d_assignee r \<and>
                   d_created_at r' = d_created_at r \<and> (d_id r \<noteq> did \<longrightarrow> r' = r))
        (defects s) (defects s2))"
proof (intro conjI impI)
  assume "exec s now c = Inr (res, s')"
  from exec_keeps_created_at [OF this]
  show "list_all2 (\<lambda>r r'. c_id r' = c_id r \<and> c_created_at r' = c_created_at r)
        (checklist_items s) (take (length (checklist_items s)) (checklist_items s'))"
    and "list_all2 (\<lambda>r r'. d_id r' = d_id r \<and> d_created_at r' = d_created_at r)
        (defects s) (take (length (defects s)) (defects s'))"
    by simp_all
next
  have "distinct (map c_id (checklist_items s))"
    using wf by (simp add: wf_db_def primary_key_def)
  then show "length (filter (\<lambda>r. c_id r = iid) (checklist_items s)) \<le> 1"
    by (rule length_filter_le_one)
  have "distinct (map d_id (defects s))"
    using wf by (simp add: wf_db_def primary_key_def)
  then show "length (filter (\<lambda>r. d_id r = did) (defects s)) \<le> 1"
    by (rule length_filter_le_one)
next
  assume u: "update_checklist_status s now iid status notes = Inr (b1, s1)"
  then show "defects s1 = defects s" "checklist_seq s1 = checklist_seq s"
    "defects_seq s1 = defects_seq s"
    by (auto simp: update_checklist_status_def split: if_splits option.splits)
  from u show "list_all2 (\<lambda>r r'. c_id r' = c_id r \<and> c_title r' = c_title r \<and>
                   c_category r' = c_category r \<and> c_severity r' = c_severity r \<and>
                   c_created_at r' = c_created_at r \<and> (c_id r \<noteq> iid \<longrightarrow> r' = r))
        (checklist_items s) (checklist_items s1)"
    by (auto simp: update_checklist_status_def list_all2_map2 list_all2_same
        split: if_splits option.splits)
next
  assume u: "resolve_defect s now did = Inr (b2, s2)"
  then show "checklist_items s2 = checklist_items s" "checklist_seq s2 = checklist_seq s"
    "defects_seq s2 = defects_seq s"
    by (auto simp: resolve_defect_def split: if_splits option.splits)
  from u show "list_all2 (\<lambda>r r'. d_id r' = d_id r \<and> d_title r' = d_title r \<and>
                   d_description r' = d_description r \<and> d_severity r' = d_severity r \<and>
                   d_component r' = d_component r \<and> d_assignee r' = d_assignee r \<and>
                   d_created_at r' = d_created_at r \<and> (d_id r \<noteq> did \<longrightarrow> r' = r))
        (defects s) (defects s2)"
    by (auto simp: resolve_defect_def list_all2_map2 list_all2_same
        split: if_splits option.splits)
qed

theorem created_at_never_rewritten_witness:
  "wf_db sample_db \<and>
   exec sample_db ''2026-11-03T09:00:00'' (AddItem sample_item)
     = Inr (RId 2, sample_db\<lparr>checklist_items := [sample_row, sample_row\<lparr>c_id := 2\<rparr>],
                             checklist_seq := 2\<rparr>) \<and>
   update_checklist_status sample_db ''2026-11-03T09:00:00'' 1 (lit ''passed'') (lit ''ok'')
     = Inr (True, sample_db\<lparr>checklist_items :=
         [sample_row\<lparr>c_status := lit ''passed'', c_notes := lit ''ok'',
                     c_updated_at := lit ''2026-11-03T09:00:00''\<rparr>]\<rparr>) \<and>
   c_created_at (sample_row\<lparr>c_status := lit ''passed'', c_notes := lit ''ok'',
                     c_updated_at := lit ''2026-11-03T09:00:00''\<rparr>) = c_created_at sample_row \<and>
   resolve_defect sample_db ''2026-11-03T09:00:00'' 1
     = Inr (True, sample_db\<lparr>defects :=
         [sample_defect_row\<lparr>d_status := lit ''resolved'',
                             d_resolved_at := Some (lit ''2026-11-03T09:00:00'')\<rparr>]\<rparr>) \<and>
   d_created_at (sample_defect_row\<lparr>d_status := lit ''resolved'',
                     d_resolved_at := Some (lit ''2026-11-03T09:00:00'')\<rparr>)
     = d_created_at sample_defect_row"
  using created_at_never_rewritten [OF wf_sample_db,
      of "''2026-11-03T09:00:00''" "AddItem sample_item" "RId 2"
         "sample_db\<lparr>checklist_items := [sample_row, sample_row\<lparr>c_id := 2\<rparr>],
                             checklist_seq := 2\<rparr>"
         1 "lit ''passed''" "lit ''ok''" True
         "sample_db\<lparr>checklist_items :=
            [sample_row\<lparr>c_status := lit ''passed'', c_notes := lit ''ok'',
                     c_updated_at := lit ''2026-11-03T09:00:00''\<rparr>]\<rparr>"
         1 True
         "sample_db\<lparr>defects :=
            [sample_defect_row\<lparr>d_status := lit ''resolved'',
                             d_resolved_at := Some (lit ''2026-11-03T09:00:00'')\<rparr>]\<rparr>"]
    wf_sample_db
  by (simp add: sample_defs bind_defs store_defs)

lemma map_sum_Inr_iff: "(map_sum id f x = Inr y) = (\<exists>a. x = Inr a \<and> y = f a)"
  by (cases x) auto

section \<open>Identifiers\<close>

lemma foldr_max_Max: "foldr max rest (i :: int) = Max (insert i (set rest))"
proof (induction rest)
  case Nil
  then show ?case by simp
next
  case (Cons a rest)
  have "Max (insert i (set (a # rest))) = Max (insert a (insert i (set rest)))"
    by (simp add: insert_commute)
  also have "\<dots> = max a (Max (insert i (set rest)))"
    by (rule Max_insert) simp_all
  finally show ?case
    using Cons by simp
qed

lemma largest_rowid_Cons:
  "largest_rowid seq (i # rest) = max seq (Max (set (i # rest)))"
  by (simp add: largest_rowid_def foldr_max_Max)

lemma largest_rowid_ge_seq: "seq \<le> largest_rowid seq ids"
  by (simp add: largest_rowid_def)

lemma largest_rowid_ge_id: "i \<in> set ids \<Longrightarrow> i \<le> largest_rowid seq ids"
proof (cases ids)
  case Nil
  then show "i \<in> set ids \<Longrightarrow> ?thesis" by simp
next
  case (Cons a rest)
  assume "i \<in> set ids"
  then have "i \<le> Max (set (a # rest))"
    using Cons by (intro Max_ge) simp_all
  then show ?thesis
    unfolding Cons largest_rowid_Cons by simp
qed

lemma largest_rowid_after_insert:
  "largest_rowid (largest_rowid seq ids + 1) (ids @ [largest_rowid seq ids + 1])
     = largest_rowid seq ids + 1"
proof -
  let ?n = "largest_rowid seq ids + 1"
  have m: "Max (set (ids @ [?n])) = ?n"
  proof (rule Max_eqI)
    fix y assume "y \<in> set (ids @ [?n])"
    then show "y \<le> ?n"
      using largest_rowid_ge_id [of y ids seq] by auto
  qed simp_all
  obtain a rest where c: "ids @ [?n] = a # rest"
    by (cases "ids @ [?n]") simp_all
  have "largest_rowid ?n (ids @ [?n]) = max ?n (Max (set (ids @ [?n])))"
    unfolding c by (rule largest_rowid_Cons)
  then show ?thesis
    by (simp only: m max.idem)
qed

lemma add_checklist_item_high:
  assumes "add_checklist_item s item = Inr (i, s')"
  shows "i = checklist_high s + 1" and "checklist_high s' = i" and "defects_high s' = defects_high s"
    and "map c_id (checklist_items s') = map c_id (checklist_items s) @ [i]"
    and "map d_id (defects s') = map d_id (defects s)"
    and "i \<le> max_rowid" and "checklist_seq s' = i" and "defects_seq s' = defects_seq s"
  using assms largest_rowid_after_insert [of "checklist_seq s" "map c_id (checklist_items s)"]
  by (auto simp: add_checklist_item_def next_rowid_def checklist_high_def defects_high_def
      split: if_splits option.splits)

lemma add_defect_high:
  assumes "add_defect s defect = Inr (i, s')"
  shows "i = defects_high s + 1" and "defects_high s' = i" and "checklist_high s' = checklist_high s"
    and "map d_id (defects s') = map d_id (defects s) @ [i]"
    and "map c_id (checklist_items s') = map c_id (checklist_items s)"
    and "i \<le> max_rowid" and "defects_seq s' = i" and "checklist_seq s' = checklist_seq s"
  using assms largest_rowid_after_insert [of "defects_seq s" "map d_id (defects s)"]
  by (auto simp: add_defect_def next_rowid_def checklist_high_def defects_high_def
      split: if_splits option.splits)

lemma update_checklist_status_ids:
  assumes "update_checklist_status s now iid status notes = Inr (b, s')"
  shows "map c_id (checklist_items s') = map c_id (checklist_items s)"
    and "defects s' = defects s" and "checklist_seq s' = checklist_seq s"
    and "defects_seq s' = defects_seq s"
  using assms
  by (auto simp: update_checklist_status_def update_map_ids split: if_splits option.splits)

lemma resolve_defect_ids:
  assumes "resolve_defect s now did = Inr (b, s')"
  shows "map d_id (defects s') = map d_id (defects s)"
    and "checklist_items s' = checklist_items s" and "checklist_seq s' = checklist_seq s"
    and "defects_seq s' = defects_seq s"
  using assms
  by (auto simp: resolve_defect_def resolve_map_ids split: if_splits option.splits)


lemma exec_item_step:
  assumes "exec s now c = Inr (r, s')"
  shows "(item_ids [((now, c), r)] = [] \<and> checklist_high s' = checklist_high s \<and>
          map c_id (checklist_items s') = map c_id (checklist_items s)) \<or>
         (item_ids [((now, c), r)] = [checklist_high s + 1] \<and>
          checklist_high s' = checklist_high s + 1 \<and>
          map c_id (checklist_items s') = map c_id (checklist_items s) @ [checklist_high s + 1])"
proof (cases c)
  case (AddItem item)
  with assms obtain i where a: "add_checklist_item s item = Inr (i, s')" and r: "r = RId i"
    by (cases "add_checklist_item s item") auto
  from add_checklist_item_high [OF a] r AddItem show ?thesis by simp
next
  case (AddDefect defect)
  with assms obtain i where a: "add_defect s defect = Inr (i, s')" and r: "r = RId i"
    by (cases "add_defect s defect") auto
  from add_defect_high [OF a] r AddDefect show ?thesis by simp
next
  case (UpdateStatus iid st nts)
  with assms obtain b where a: "update_checklist_status s now iid st nts = Inr (b, s')"
    and r: "r = RBool b"
    by (cases "update_checklist_status s now iid st nts") auto
  from update_checklist_status_ids [OF a] r UpdateStatus show ?thesis
    by (simp add: checklist_high_def)
next
  case (ResolveDefect did)
  with assms obtain b where a: "resolve_defect s now did = Inr (b, s')" and r: "r = RBool b"
    by (cases "resolve_defect s now did") auto
  from resolve_defect_ids [OF a] r ResolveDefect show ?thesis
    by (simp add: checklist_high_def)
qed (use assms in \<open>auto simp: map_sum_Inr_iff\<close>)

lemma exec_defect_step:
  assumes "exec s now c = Inr (r, s')"
  shows "(defect_ids [((now, c), r)] = [] \<and> defects_high s' = defects_high s \<and>
          map d_id (defects s') = map d_id (defects s)) \<or>
         (defect_ids [((now, c), r)] = [defects_high s + 1] \<and>
          defects_high s' = defects_high s + 1 \<and>
          map d_id (defects s') = map d_id (defects s) @ [defects_high s + 1])"
proof (cases c)
  case (AddItem item)
  with assms obtain i where a: "add_checklist_item s item = Inr (i, s')" and r: "r = RId i"
    by (cases "add_checklist_item s item") auto
  from add_checklist_item_high [OF a] r AddItem show ?thesis by simp
next
  case (AddDefect defect)
  with assms obtain i where a: "add_defect s defect = Inr (i, s')" and r: "r = RId i"
    by (cases "add_defect s defect") auto
  from add_defect_high [OF a] r AddDefect show ?thesis by simp
next
  case (UpdateStatus iid st nts)
  with assms obtain b where a: "update_checklist_status s now iid st nts = Inr (b, s')"
    and r: "r = RBool b"
    by (cases "update_checklist_status s now iid st nts") auto
  from update_checklist_status_ids [OF a] r UpdateStatus show ?thesis
    by (simp add: defects_high_def)
next
  case (ResolveDefect did)
  with assms obtain b where a: "resolve_defect s now did = Inr (b, s')" and r: "r = RBool b"
    by (cases "resolve_defect s now did") auto
  from resolve_defect_ids [OF a] r ResolveDefect show ?thesis
    by (simp add: defects_high_def)
qed (use assms in \<open>auto simp: map_sum_Inr_iff\<close>)

lemma item_ids_Cons: "item_ids (x # xs) = item_ids [x] @ item_ids xs"
  by (cases "x # xs" rule: item_ids.cases) auto

lemma defect_ids_Cons: "defect_ids (x # xs) = defect_ids [x] @ defect_ids xs"
  by (cases "x # xs" rule: defect_ids.cases) auto

lemma run_Cons_Inr:
  assumes "run s ((now, c) # cs) = Inr (rs, s')"
  obtains r s1 rs1 where "exec s now c = Inr (r, s1)" "run s1 cs = Inr (rs1, s')" "rs = r # rs1"
  using assms by (auto split: sum.splits)

lemma run_item_ids:
  "run s calls = Inr (rs, s') \<Longrightarrow>
     map c_id (checklist_items s') = map c_id (checklist_items s) @ item_ids (zip calls rs) \<and>
     sorted_wrt (<) (item_ids (zip calls rs)) \<and>
     (\<forall>i\<in>set (item_ids (zip calls rs)). checklist_high s < i \<and> i \<le> checklist_high s') \<and>
     checklist_high s \<le> checklist_high s'"
proof (induction calls arbitrary: s rs)
  case Nil
  then show ?case by simp
next
  case (Cons nc cs)
  obtain now c where nc: "nc = (now, c)" by (cases nc)
  have "run s ((now, c) # cs) = Inr (rs, s')"
    using Cons.prems unfolding nc .
  then obtain r s1 rs1 where
    e: "exec s now c = Inr (r, s1)" and rn: "run s1 cs = Inr (rs1, s')" and rs: "rs = r # rs1"
    by (rule run_Cons_Inr)
  note ih = Cons.IH [OF rn]
  have z: "item_ids (zip (nc # cs) rs) = item_ids [((now, c), r)] @ item_ids (zip cs rs1)"
    using nc rs item_ids_Cons [of "((now, c), r)" "zip cs rs1"] by simp
  from exec_item_step [OF e] show ?case
  proof
    assume a: "item_ids [((now, c), r)] = [] \<and> checklist_high s1 = checklist_high s \<and>
          map c_id (checklist_items s1) = map c_id (checklist_items s)"
    with ih z show ?thesis by simp
  next
    assume a: "item_ids [((now, c), r)] = [checklist_high s + 1] \<and>
          checklist_high s1 = checklist_high s + 1 \<and>
          map c_id (checklist_items s1) = map c_id (checklist_items s) @ [checklist_high s + 1]"
    with ih z show ?thesis by (auto simp: a)
  qed
qed

lemma run_defect_ids:
  "run s calls = Inr (rs, s') \<Longrightarrow>
     map d_id (defects s') = map d_id (defects s) @ defect_ids (zip calls rs) \<and>
     sorted_wrt (<) (defect_ids (zip calls rs)) \<and>
     (\<forall>i\<in>set (defect_ids (zip calls rs)). defects_high s < i \<and> i \<le> defects_high s') \<and>
     defects_high s \<le> defects_high s'"
proof (induction calls arbitrary: s rs)
  case Nil
  then show ?case by simp
next
  case (Cons nc cs)
  obtain now c where nc: "nc = (now, c)" by (cases nc)
  have "run s ((now, c) # cs) = Inr (rs, s')"
    using Cons.prems unfolding nc .
  then obtain r s1 rs1 where
    e: "exec s now c = Inr (r, s1)" and rn: "run s1 cs = Inr (rs1, s')" and rs: "rs = r # rs1"
    by (rule run_Cons_Inr)
  note ih = Cons.IH [OF rn]
  have z: "defect_ids (zip (nc # cs) rs) = defect_ids [((now, c), r)] @ defect_ids (zip cs rs1)"
    using nc rs defect_ids_Cons [of "((now, c), r)" "zip cs rs1"] by simp
  from exec_defect_step [OF e] show ?case
  proof
    assume a: "defect_ids [((now, c), r)] = [] \<and> defects_high s1 = defects_high s \<and>
          map d_id (defects s1) = map d_id (defects s)"
    with ih z show ?thesis by simp
  next
    assume a: "defect_ids [((now, c), r)] = [defects_high s + 1] \<and>
          defects_high s1 = defects_high s + 1 \<and>
          map d_id (defects s1) = map d_id (defects s) @ [defects_high s + 1]"
    with ih z show ?thesis by (auto simp: a)
  qed
qed


lemma wf_db_new_db: "wf_db new_db"
  by (simp add: wf_db_def primary_key_def new_db_def in_int64_def max_rowid_def)

lemma primary_key_append:
  assumes pk: "primary_key ids" and seq: "in_int64 seq"
    and i: "i = largest_rowid seq ids + 1" and le: "i \<le> max_rowid"
  shows "primary_key (ids @ [i]) \<and> in_int64 i"
proof -
  have fresh: "i \<notin> set ids"
  proof
    assume "i \<in> set ids"
    then have "i \<le> largest_rowid seq ids" by (rule largest_rowid_ge_id)
    with i show False by simp
  qed
  have "seq \<le> largest_rowid seq ids" by (rule largest_rowid_ge_seq)
  with seq i le have "in_int64 i"
    by (simp add: in_int64_def)
  with pk fresh show ?thesis
    by (simp add: primary_key_def)
qed

lemma exec_wf:
  assumes wf: "wf_db s" and e: "exec s now c = Inr (r, s')"
  shows "wf_db s'"
proof (cases c)
  case (AddItem item)
  with e obtain i where a: "add_checklist_item s item = Inr (i, s')"
    by (cases "add_checklist_item s item") auto
  note h = add_checklist_item_high [OF a]
  have "primary_key (map c_id (checklist_items s) @ [i]) \<and> in_int64 i"
    using wf h(1) h(6) by (intro primary_key_append) (simp_all add: wf_db_def checklist_high_def)
  with wf h show ?thesis by (simp add: wf_db_def)
next
  case (AddDefect defect)
  with e obtain i where a: "add_defect s defect = Inr (i, s')"
    by (cases "add_defect s defect") auto
  note h = add_defect_high [OF a]
  have "primary_key (map d_id (defects s) @ [i]) \<and> in_int64 i"
    using wf h(1) h(6) by (intro primary_key_append) (simp_all add: wf_db_def defects_high_def)
  with wf h show ?thesis by (simp add: wf_db_def)
next
  case (UpdateStatus iid st nts)
  with e obtain b where a: "update_checklist_status s now iid st nts = Inr (b, s')"
    by (cases "update_checklist_status s now iid st nts") auto
  from update_checklist_status_ids [OF a] wf show ?thesis by (simp add: wf_db_def)
next
  case (ResolveDefect did)
  with e obtain b where a: "resolve_defect s now did = Inr (b, s')"
    by (cases "resolve_defect s now did") auto
  from resolve_defect_ids [OF a] wf show ?thesis by (simp add: wf_db_def)
qed (use assms in \<open>auto simp: map_sum_Inr_iff\<close>)

lemma run_wf: "wf_db s \<Longrightarrow> run s calls = Inr (rs, s') \<Longrightarrow> wf_db s'"
proof (induction calls arbitrary: s rs)
  case Nil
  then show ?case by simp
next
  case (Cons nc cs)
  obtain now c where nc: "nc = (now, c)" by (cases nc)
  have "run s ((now, c) # cs) = Inr (rs, s')"
    using Cons.prems(2) unfolding nc .
  then obtain r s1 rs1 where
    e: "exec s now c = Inr (r, s1)" and rn: "run s1 cs = Inr (rs1, s')"
    by (rule run_Cons_Inr)
  from exec_wf [OF Cons.prems(1) e] rn show ?case by (rule Cons.IH)
qed

text \<open>Every store reached from a new one by calls that return has primary keys.\<close>

lemma run_new_db_wf: "run new_db calls = Inr (rs, s') \<Longrightarrow> wf_db s'"
  using wf_db_new_db by (rule run_wf)

lemma add_checklist_item_succeeds:
  "bindable_item item \<Longrightarrow> checklist_high s < max_rowid \<Longrightarrow>
     \<exists>i s'. add_checklist_item s item = Inr (i, s')"
  by (simp add: add_checklist_item_binds next_rowid_def checklist_high_def)

lemma add_defect_succeeds:
  "bindable_defect defect \<Longrightarrow> defects_high s < max_rowid \<Longrightarrow>
     \<exists>i s'. add_defect s defect = Inr (i, s')"
  by (simp add: add_defect_binds next_rowid_def defects_high_def)

lemma list_checklist_items_binds:
  "binds (ListItems category) \<Longrightarrow> \<exists>rows. list_checklist_items s category = Inr rows"
  by (auto simp: list_checklist_items_def truthy_def bindable_def split: option.splits)

lemma list_defects_binds:
  "binds (ListDefects status) \<Longrightarrow> \<exists>rows. list_defects s status = Inr rows"
  by (auto simp: list_defects_def truthy_def bindable_def split: option.splits)

lemma exec_binds_succeeds:
  assumes b: "binds c" and ch: "checklist_high s < max_rowid" and dh: "defects_high s < max_rowid"
  shows "\<exists>r s1. exec s now c = Inr (r, s1) \<and> checklist_high s1 \<le> checklist_high s + 1 \<and>
           defects_high s1 \<le> defects_high s + 1"
proof (cases c)
  case (AddItem item)
  with b have "bindable_item item" by simp
  then obtain i s1 where a: "add_checklist_item s item = Inr (i, s1)"
    using add_checklist_item_succeeds [OF _ ch] by blast
  from add_checklist_item_high [OF a] a AddItem show ?thesis by simp
next
  case (AddDefect defect)
  with b have "bindable_defect defect" by simp
  then obtain i s1 where a: "add_defect s defect = Inr (i, s1)"
    using add_defect_succeeds [OF _ dh] by blast
  from add_defect_high [OF a] a AddDefect show ?thesis by simp
next
  case (UpdateStatus iid st nts)
  with b have "bindable st" "bindable nts" "in_int64 iid" by simp_all
  then obtain bl s1 where a: "update_checklist_status s now iid st nts = Inr (bl, s1)"
    by (simp add: update_checklist_status_binds)
  from update_checklist_status_ids [OF a] a UpdateStatus show ?thesis
    by (simp add: checklist_high_def defects_high_def)
next
  case (ResolveDefect did)
  with b have "in_int64 did" by simp
  then obtain bl s1 where a: "resolve_defect s now did = Inr (bl, s1)"
    by (simp add: resolve_defect_binds)
  from resolve_defect_ids [OF a] a ResolveDefect show ?thesis
    by (simp add: checklist_high_def defects_high_def)
next
  case (ListItems category)
  with b obtain rows where "list_checklist_items s category = Inr rows"
    using list_checklist_items_binds by blast
  with ListItems show ?thesis by simp
next
  case (ListDefects status)
  with b obtain rows where "list_defects s status = Inr rows"
    using list_defects_binds by blast
  with ListDefects show ?thesis by simp
next
  case GetStats
  then show ?thesis by simp
next
  case Export
  then show ?thesis by (simp add: export_json_Inr)
qed

lemma run_binds_succeeds:
  "list_all (\<lambda>nc. binds (snd nc)) calls \<Longrightarrow>
   checklist_high s + int (length calls) \<le> max_rowid \<Longrightarrow>
   defects_high s + int (length calls) \<le> max_rowid \<Longrightarrow>
   \<exists>rs s'. run s calls = Inr (rs, s')"
proof (induction calls arbitrary: s)
  case Nil
  then show ?case by simp
next
  case (Cons nc cs)
  obtain now c where nc: "nc = (now, c)" by (cases nc)
  from Cons.prems(1) nc have b: "binds c" and rest: "list_all (\<lambda>nc. binds (snd nc)) cs"
    by simp_all
  from Cons.prems(2,3) have "checklist_high s < max_rowid" "defects_high s < max_rowid"
    by simp_all
  from exec_binds_succeeds [OF b this] obtain r s1 where e: "exec s now c = Inr (r, s1)"
    and h1: "checklist_high s1 \<le> checklist_high s + 1"
    and h2: "defects_high s1 \<le> defects_high s + 1"
    by blast
  have "\<exists>rs s'. run s1 cs = Inr (rs, s')"
    using rest Cons.prems(2,3) h1 h2 by (intro Cons.IH) simp_all
  then show ?case
    using e nc by auto
qed

text \<open>
  C6: for every sequence of calls on one store (a database whose ids are a primary key)
  that runs through, the ids returned by its \<open>AddItem\<close> calls are strictly increasing
  in call order, and so are the ids returned by its \<open>AddDefect\<close> calls; the ids of each
  table afterwards are the ids it had before followed by the returned ones, and they are
  pairwise different. A sequence of calls whose arguments bind runs through as long as
  the largest rowid is not used up.
\<close>

theorem ids_unique_and_increasing:
  assumes wf: "wf_db s"
  shows "(run s calls = Inr (rs, s') \<longrightarrow>
      sorted_wrt (<) (item_ids (zip calls rs)) \<and>
      sorted_wrt (<) (defect_ids (zip calls rs)) \<and>
      map c_id (checklist_items s') = map c_id (checklist_items s) @ item_ids (zip calls rs) \<and>
      map d_id (defects s') = map d_id (defects s) @ defect_ids (zip calls rs) \<and>
      distinct (map c_id (checklist_items s')) \<and> distinct (map d_id (defects s'))) \<and>
   (list_all (\<lambda>nc. binds (snd nc)) calls \<and>
    checklist_high s + int (length calls) \<le> max_rowid \<and>
    defects_high s + int (length calls) \<le> max_rowid \<longrightarrow>
      (\<exists>rs s'. run s calls = Inr (rs, s')))"
proof (intro conjI impI)
  assume r: "run s calls = Inr (rs, s')"
  from run_item_ids [OF r]
  show "sorted_wrt (<) (item_ids (zip calls rs))"
    and "map c_id (checklist_items s') = map c_id (checklist_items s) @ item_ids (zip calls rs)"
    by simp_all
  from run_defect_ids [OF r]
  show "sorted_wrt (<) (defect_ids (zip calls rs))"
    and "map d_id (defects s') = map d_id (defects s) @ defect_ids (zip calls rs)"
    by simp_all
  from run_wf [OF wf r]
  show "distinct (map c_id (checklist_items s'))" and "distinct (map d_id (defects s'))"
    by (simp_all add: wf_db_def primary_key_def)
next
  assume "list_all (\<lambda>nc. binds (snd nc)) calls \<and>
    checklist_high s + int (length calls) \<le> max_rowid \<and>
    defects_high s + int (length calls) \<le> max_rowid"
  then show "\<exists>rs s'. run s calls = Inr (rs, s')"
    using run_binds_succeeds by blast
qed

theorem ids_unique_and_increasing_witness:
  "wf_db sample_db \<and>
   run sample_db [(''2026-11-03T09:00:00'', AddItem sample_item),
                  (''2026-11-03T09:00:01'', AddDefect sample_defect),
                  (''2026-11-03T09:00:02'', AddItem sample_item)]
     = Inr ([RId 2, RId 2, RId 3],
            \<lparr>checklist_items = [sample_row, sample_row\<lparr>c_id := 2\<rparr>, sample_row\<lparr>c_id := 3\<rparr>],
             checklist_seq = 3,
             defects = [sample_defect_row, sample_defect_row\<lparr>d_id := 2\<rparr>],
             defects_seq = 2\<rparr>) \<and>
   item_ids (zip [(''2026-11-03T09:00:00'', AddItem sample_item),
                  (''2026-11-03T09:00:01'', AddDefect sample_defect),
                  (''2026-11-03T09:00:02'', AddItem sample_item)] [RId 2, RId 2, RId 3]) = [2, 3] \<and>
   defect_ids (zip [(''2026-11-03T09:00:00'', AddItem sample_item),
                  (''2026-11-03T09:00:01'', AddDefect sample_defect),
                  (''2026-11-03T09:00:02'', AddItem sample_item)] [RId 2, RId 2, RId 3]) = [2] \<and>
   sorted_wrt (<) [2, 3 :: int]"
  using ids_unique_and_increasing [OF wf_sample_db,
      of "[(''2026-11-03T09:00:00'', AddItem sample_item),
           (''2026-11-03T09:00:01'', AddDefect sample_defect),
           (''2026-11-03T09:00:02'', AddItem sample_item)]"
         "[RId 2, RId 2, RId 3]"
         "\<lparr>checklist_items = [sample_row, sample_row\<lparr>c_id := 2\<rparr>, sample_row\<lparr>c_id := 3\<rparr>],
             checklist_seq = 3,
             defects = [sample_defect_row, sample_defect_row\<lparr>d_id := 2\<rparr>],
             defects_seq = 2\<rparr>"]
    wf_sample_db
  by (simp add: sample_defs bind_defs store_defs)

section \<open>Listing checklist items\<close>




text \<open>A non-empty category that does not bind makes the listing raise.\<close>

lemma list_checklist_items_raises:
  "category \<noteq> [] \<Longrightarrow> \<not> bindable category \<Longrightarrow>
     \<exists>e. list_checklist_items s (Some category) = Inl e"
  by (auto simp: list_checklist_items_def truthy_def bindable_def)





end
